theory Spec2Isabelle
  imports Main "HOL-Library.Stream"
begin

section \<open>The Snake game component (src/components/SnakeGame.tsx)\<close>

subsection \<open>Types and constants\<close>

text \<open>
  \<^verbatim>\<open>type Position = { x: number; y: number }\<close>. The fields are called \<open>pos_x\<close> and
  \<open>pos_y\<close> here, since a record field is a constant and \<open>x\<close>, \<open>y\<close> are wanted as
  variables. Coordinates are JavaScript numbers that only ever hold integers.
\<close>

record Position =
  pos_x :: int
  pos_y :: int

datatype Direction = UP | DOWN | LEFT | RIGHT

datatype GameStatus = IDLE | PLAYING | GAME_OVER

definition BOARD_SIZE :: int where
  "BOARD_SIZE = 20"

definition INITIAL_SPEED :: int where
  "INITIAL_SPEED = 150"

definition MIN_SPEED :: int where
  "MIN_SPEED = 50"

definition SPEED_INCREMENT :: int where
  "SPEED_INCREMENT = 5"

definition INITIAL_SNAKE :: "Position list" where
  "INITIAL_SNAKE =
     [\<lparr>pos_x = 10, pos_y = 10\<rparr>, \<lparr>pos_x = 10, pos_y = 11\<rparr>, \<lparr>pos_x = 10, pos_y = 12\<rparr>]"

text \<open>
  The component's state: the six \<^verbatim>\<open>useState\<close> cells and the two \<^verbatim>\<open>useRef\<close> cells.
  React compares the \<^verbatim>\<open>snake\<close> state by object identity when it decides whether the
  effect with dependency \<^verbatim>\<open>snake\<close> runs again, so the identity of the array held by the
  state is kept in \<open>snakeRef\<close>: \<open>0\<close> is the constant \<^verbatim>\<open>INITIAL_SNAKE\<close>, and every array
  built by \<^verbatim>\<open>moveSnake\<close> is a new object, numbered one more than the array it replaces
  (only consecutive arrays are ever compared).
\<close>

record game =
  snake :: "Position list"
  snakeRef :: nat
  food :: Position
  direction :: Direction
  gameStatus :: GameStatus
  score :: int
  speed :: int
  directionRef :: Direction
  gameStatusRef :: GameStatus

text \<open>The values of the first render (the arguments of \<^verbatim>\<open>useState\<close> and \<^verbatim>\<open>useRef\<close>).\<close>

definition initialState :: game where
  "initialState =
     \<lparr>snake = INITIAL_SNAKE, snakeRef = 0, food = \<lparr>pos_x = 5, pos_y = 5\<rparr>,
      direction = UP, gameStatus = IDLE, score = 0, speed = INITIAL_SPEED,
      directionRef = UP, gameStatusRef = IDLE\<rparr>"

subsection \<open>Food placement\<close>

text \<open>
  \<^verbatim>\<open>isPositionOccupied\<close>, the closure inside \<^verbatim>\<open>generateFood\<close>:
  \<^verbatim>\<open>snakeBody.some(segment => segment.x === pos.x && segment.y === pos.y)\<close>.
\<close>

definition isPositionOccupied :: "Position list \<Rightarrow> Position \<Rightarrow> bool" where
  "isPositionOccupied snakeBody pos =
     list_ex (\<lambda>segment. pos_x segment = pos_x pos \<and> pos_y segment = pos_y pos) snakeBody"

text \<open>
  \<^verbatim>\<open>generateFood\<close>. The random source is a stream of candidate cells: each element is
  one evaluation of
  \<^verbatim>\<open>{ x: Math.floor(Math.random() * BOARD_SIZE), y: Math.floor(Math.random() * BOARD_SIZE) }\<close>.
  The do-while loop draws until a candidate is free and then calls \<^verbatim>\<open>setFood\<close>; the
  function returns the updated state and the rest of the stream. A loop that never finds a
  free candidate never returns: the value is \<open>None\<close>.
\<close>

partial_function (option) generateFood ::
  "Position list \<Rightarrow> game \<Rightarrow> Position stream \<Rightarrow> (game \<times> Position stream) option" where
  "generateFood snakeBody g rs =
     (if isPositionOccupied snakeBody (shd rs)
      then generateFood snakeBody g (stl rs)
      else Some (g\<lparr>food := shd rs\<rparr>, stl rs))"

subsection \<open>Starting and restarting\<close>

text \<open>\<^verbatim>\<open>initGame\<close>: the state setters in the order of the source.\<close>

definition initGame :: "game \<Rightarrow> Position stream \<Rightarrow> (game \<times> Position stream) option" where
  "initGame g rs =
     (case generateFood INITIAL_SNAKE
             (g\<lparr>snake := INITIAL_SNAKE, snakeRef := 0, direction := UP, directionRef := UP,
                score := 0, speed := INITIAL_SPEED\<rparr>) rs of
        None \<Rightarrow> None
      | Some (g', rs') \<Rightarrow> Some (g'\<lparr>gameStatus := PLAYING, gameStatusRef := PLAYING\<rparr>, rs'))"

subsection \<open>Direction input\<close>

text \<open>
  The four cases shared by \<^verbatim>\<open>handleKeyDown\<close> and \<^verbatim>\<open>handleSwipe\<close>: the requested
  direction is stored in the state and in the ref unless the ref holds its reverse.
\<close>

fun turn :: "Direction \<Rightarrow> game \<Rightarrow> game" where
  "turn UP g = (if directionRef g \<noteq> DOWN then g\<lparr>direction := UP, directionRef := UP\<rparr> else g)"
| "turn DOWN g = (if directionRef g \<noteq> UP then g\<lparr>direction := DOWN, directionRef := DOWN\<rparr> else g)"
| "turn LEFT g = (if directionRef g \<noteq> RIGHT then g\<lparr>direction := LEFT, directionRef := LEFT\<rparr> else g)"
| "turn RIGHT g = (if directionRef g \<noteq> LEFT then g\<lparr>direction := RIGHT, directionRef := RIGHT\<rparr> else g)"

text \<open>\<^verbatim>\<open>handleSwipe\<close> (the on-screen arrow buttons).\<close>

definition handleSwipe :: "Direction \<Rightarrow> game \<Rightarrow> game" where
  "handleSwipe dir g = (if gameStatusRef g \<noteq> PLAYING then g else turn dir g)"

text \<open>\<^verbatim>\<open>handleKeyDown\<close>, on the key name of the event.\<close>

definition handleKeyDown :: "string \<Rightarrow> game \<Rightarrow> Position stream \<Rightarrow> (game \<times> Position stream) option" where
  "handleKeyDown key g rs =
     (if gameStatusRef g = GAME_OVER \<and> (key = '' '' \<or> key = ''Spacebar'') then initGame g rs
      else if gameStatusRef g \<noteq> PLAYING then Some (g, rs)
      else if key = ''ArrowUp'' \<or> key = ''w'' \<or> key = ''W'' then Some (turn UP g, rs)
      else if key = ''ArrowDown'' \<or> key = ''s'' \<or> key = ''S'' then Some (turn DOWN g, rs)
      else if key = ''ArrowLeft'' \<or> key = ''a'' \<or> key = ''A'' then Some (turn LEFT g, rs)
      else if key = ''ArrowRight'' \<or> key = ''d'' \<or> key = ''D'' then Some (turn RIGHT g, rs)
      else Some (g, rs))"

subsection \<open>The game loop\<close>

text \<open>The switch on \<^verbatim>\<open>directionRef.current\<close> that moves the copied head.\<close>

fun moveHead :: "Direction \<Rightarrow> Position \<Rightarrow> Position" where
  "moveHead UP head = head\<lparr>pos_y := pos_y head - 1\<rparr>"
| "moveHead DOWN head = head\<lparr>pos_y := pos_y head + 1\<rparr>"
| "moveHead LEFT head = head\<lparr>pos_x := pos_x head - 1\<rparr>"
| "moveHead RIGHT head = head\<lparr>pos_x := pos_x head + 1\<rparr>"

text \<open>
  \<^verbatim>\<open>moveSnake\<close>: the updater passed to \<^verbatim>\<open>setSnake\<close>, with the state setters it calls.
  On an empty array \<^verbatim>\<open>prevSnake[0]\<close> is \<^verbatim>\<open>undefined\<close>, the copied head has no numeric
  coordinate, every comparison on it is false, and the one-element array is emptied again
  by \<^verbatim>\<open>pop\<close>: the result is a new empty array.
\<close>

definition moveSnake :: "game \<Rightarrow> Position stream \<Rightarrow> (game \<times> Position stream) option" where
  "moveSnake g rs =
     (case snake g of
        [] \<Rightarrow> Some (g\<lparr>snake := [], snakeRef := Suc (snakeRef g)\<rparr>, rs)
      | first # _ \<Rightarrow>
          (let head = moveHead (directionRef g) first in
           if pos_x head < 0 \<or> pos_x head \<ge> BOARD_SIZE \<or> pos_y head < 0 \<or> pos_y head \<ge> BOARD_SIZE
           then Some (g\<lparr>gameStatus := GAME_OVER, gameStatusRef := GAME_OVER\<rparr>, rs)
           else if list_ex (\<lambda>segment. pos_x segment = pos_x head \<and> pos_y segment = pos_y head) (snake g)
           then Some (g\<lparr>gameStatus := GAME_OVER, gameStatusRef := GAME_OVER\<rparr>, rs)
           else
             (let newSnake = head # snake g in
              if pos_x head = pos_x (food g) \<and> pos_y head = pos_y (food g)
              then generateFood newSnake
                     (g\<lparr>snake := newSnake, snakeRef := Suc (snakeRef g), score := score g + 10,
                        speed := max MIN_SPEED (speed g - SPEED_INCREMENT)\<rparr>) rs
              else Some (g\<lparr>snake := butlast newSnake, snakeRef := Suc (snakeRef g)\<rparr>, rs))))"

subsection \<open>Effects after a render\<close>

text \<open>
  After a handler has run, React renders and runs again the effects whose dependencies
  changed, in the order of the source: the effect on \<^verbatim>\<open>[generateFood, snake]\<close> calls
  \<^verbatim>\<open>generateFood(snake)\<close> when the array in the \<^verbatim>\<open>snake\<close> state is another object than
  before, and the two ref effects copy \<^verbatim>\<open>direction\<close> and \<^verbatim>\<open>gameStatus\<close> into their refs
  when these changed. (The game-loop effect only replaces the timer.)
\<close>

definition runEffects :: "game \<Rightarrow> game \<Rightarrow> Position stream \<Rightarrow> (game \<times> Position stream) option" where
  "runEffects old g rs =
     (case (if snakeRef g \<noteq> snakeRef old then generateFood (snake g) g rs else Some (g, rs)) of
        None \<Rightarrow> None
      | Some (g1, rs') \<Rightarrow>
          (let g2 = (if direction g1 \<noteq> direction old then g1\<lparr>directionRef := direction g1\<rparr> else g1);
               g3 = (if gameStatus g2 \<noteq> gameStatus old then g2\<lparr>gameStatusRef := gameStatus g2\<rparr> else g2)
           in Some (g3, rs')))"

text \<open>On mount every effect runs once: \<^verbatim>\<open>generateFood(snake)\<close> and the two ref copies.\<close>

definition mount :: "Position stream \<Rightarrow> (game \<times> Position stream) option" where
  "mount rs =
     (case generateFood (snake initialState) initialState rs of
        None \<Rightarrow> None
      | Some (g, rs') \<Rightarrow> Some (g\<lparr>directionRef := direction g, gameStatusRef := gameStatus g\<rparr>, rs'))"

subsection \<open>Events\<close>

text \<open>
  One tick of the timer. The game-loop effect returns before \<^verbatim>\<open>setInterval\<close> unless
  \<^verbatim>\<open>gameStatus\<close> is \<^verbatim>\<open>PLAYING\<close>, and its cleanup clears the timer, so outside
  \<^verbatim>\<open>PLAYING\<close> there is no timer and nothing runs. Otherwise \<^verbatim>\<open>moveSnake\<close> runs,
  followed by the effects of the render it causes.
\<close>

definition tick :: "game \<Rightarrow> Position stream \<Rightarrow> (game \<times> Position stream) option" where
  "tick g rs =
     (if gameStatus g \<noteq> PLAYING then Some (g, rs)
      else case moveSnake g rs of
             None \<Rightarrow> None
           | Some (g', rs') \<Rightarrow> runEffects g g' rs')"

text \<open>A run of \<open>n\<close> ticks with no other event between them.\<close>

fun ticks :: "nat \<Rightarrow> game \<Rightarrow> Position stream \<Rightarrow> (game \<times> Position stream) option" where
  "ticks 0 g rs = Some (g, rs)"
| "ticks (Suc n) g rs =
     (case tick g rs of None \<Rightarrow> None | Some (g', rs') \<Rightarrow> ticks n g' rs')"

text \<open>A direction request (\<^verbatim>\<open>handleSwipe\<close>) with the render that follows.\<close>

definition setDirection :: "Direction \<Rightarrow> game \<Rightarrow> Position stream \<Rightarrow> (game \<times> Position stream) option" where
  "setDirection dir g rs = runEffects g (handleSwipe dir g) rs"

text \<open>A key press with the render that follows.\<close>

definition keyDown :: "string \<Rightarrow> game \<Rightarrow> Position stream \<Rightarrow> (game \<times> Position stream) option" where
  "keyDown key g rs =
     (case handleKeyDown key g rs of
        None \<Rightarrow> None
      | Some (g', rs') \<Rightarrow> runEffects g g' rs')"

text \<open>A restart (\<^verbatim>\<open>initGame\<close>, from the buttons or the space key) with the render that follows.\<close>

definition reset :: "game \<Rightarrow> Position stream \<Rightarrow> (game \<times> Position stream) option" where
  "reset g rs =
     (case initGame g rs of
        None \<Rightarrow> None
      | Some (g', rs') \<Rightarrow> runEffects g g' rs')"

subsection \<open>Vocabulary of the properties\<close>

text \<open>The exact reverse of a direction.\<close>

fun opposite :: "Direction \<Rightarrow> Direction" where
  "opposite UP = DOWN"
| "opposite DOWN = UP"
| "opposite LEFT = RIGHT"
| "opposite RIGHT = LEFT"

text \<open>The direction a key asks for, by the case labels of \<^verbatim>\<open>handleKeyDown\<close>.\<close>

definition keyDirection :: "string \<Rightarrow> Direction option" where
  "keyDirection key =
     (if key = ''ArrowUp'' \<or> key = ''w'' \<or> key = ''W'' then Some UP
      else if key = ''ArrowDown'' \<or> key = ''s'' \<or> key = ''S'' then Some DOWN
      else if key = ''ArrowLeft'' \<or> key = ''a'' \<or> key = ''A'' then Some LEFT
      else if key = ''ArrowRight'' \<or> key = ''d'' \<or> key = ''D'' then Some RIGHT
      else None)"

text \<open>
  Every candidate of the random source lies on the board: \<^verbatim>\<open>Math.random()\<close> is in
  \<open>[0, 1)\<close>, so \<^verbatim>\<open>Math.floor(Math.random() * BOARD_SIZE)\<close> is one of \<open>0, \<dots>, 19\<close>.
\<close>

definition onBoard :: "Position \<Rightarrow> bool" where
  "onBoard p = (0 \<le> pos_x p \<and> pos_x p < BOARD_SIZE \<and> 0 \<le> pos_y p \<and> pos_y p < BOARD_SIZE)"

definition drawsOnBoard :: "Position stream \<Rightarrow> bool" where
  "drawsOnBoard rs = (\<forall>n. onBoard (rs !! n))"

text \<open>
  The states the component can be in: the mounted component, and whatever a timer tick, a
  key press, an arrow button or one of the two restart buttons (rendered only outside
  \<^verbatim>\<open>PLAYING\<close>) makes of a state it can be in, for any random draws on the board.
\<close>

inductive reachable :: "game \<Rightarrow> bool" where
  mounted: "drawsOnBoard rs \<Longrightarrow> mount rs = Some (g, rs') \<Longrightarrow> reachable g"
| ticked: "reachable g \<Longrightarrow> drawsOnBoard rs \<Longrightarrow> tick g rs = Some (g', rs') \<Longrightarrow> reachable g'"
| key: "reachable g \<Longrightarrow> drawsOnBoard rs \<Longrightarrow> keyDown k g rs = Some (g', rs') \<Longrightarrow> reachable g'"
| arrow: "reachable g \<Longrightarrow> drawsOnBoard rs \<Longrightarrow> setDirection dir g rs = Some (g', rs') \<Longrightarrow> reachable g'"
| button: "reachable g \<Longrightarrow> gameStatus g \<noteq> PLAYING \<Longrightarrow> drawsOnBoard rs \<Longrightarrow>
     reset g rs = Some (g', rs') \<Longrightarrow> reachable g'"

text \<open>What holds in every state the component can be in.\<close>

definition wellFormed :: "game \<Rightarrow> bool" where
  "wellFormed g =
     (snake g \<noteq> [] \<and> onBoard (food g) \<and> \<not> isPositionOccupied (snake g) (food g) \<and>
      directionRef g = direction g \<and> gameStatusRef g = gameStatus g)"

subsection \<open>Example states\<close>

text \<open>A game just started, with the food at \<open>(5, 5)\<close>.\<close>

definition startedGame :: game where
  "startedGame =
     \<lparr>snake = INITIAL_SNAKE, snakeRef = 0, food = \<lparr>pos_x = 5, pos_y = 5\<rparr>,
      direction = UP, gameStatus = PLAYING, score = 0, speed = INITIAL_SPEED,
      directionRef = UP, gameStatusRef = PLAYING\<rparr>"

text \<open>A random source whose every candidate is the cell \<open>(7, 7)\<close>.\<close>

definition sevens :: "Position stream" where
  "sevens = sconst \<lparr>pos_x = 7, pos_y = 7\<rparr>"

text \<open>The started game one step later, with the food redrawn at \<open>(7, 7)\<close>.\<close>

definition movedGame :: game where
  "movedGame = startedGame
     \<lparr>snake := [\<lparr>pos_x = 10, pos_y = 9\<rparr>, \<lparr>pos_x = 10, pos_y = 10\<rparr>, \<lparr>pos_x = 10, pos_y = 11\<rparr>],
      snakeRef := 1, food := \<lparr>pos_x = 7, pos_y = 7\<rparr>\<rparr>"

text \<open>A started game with the food in the cell above the head.\<close>

definition foodAhead :: game where
  "foodAhead = startedGame\<lparr>food := \<lparr>pos_x = 10, pos_y = 9\<rparr>\<rparr>"

text \<open>A snake heading left with its head in the leftmost column.\<close>

definition atLeftWall :: game where
  "atLeftWall = startedGame
     \<lparr>snake := [\<lparr>pos_x = 0, pos_y = 5\<rparr>, \<lparr>pos_x = 1, pos_y = 5\<rparr>, \<lparr>pos_x = 2, pos_y = 5\<rparr>],
      snakeRef := 1, direction := LEFT, directionRef := LEFT\<rparr>"

text \<open>The same game after it has ended.\<close>

definition endedGame :: game where
  "endedGame = atLeftWall\<lparr>gameStatus := GAME_OVER, gameStatusRef := GAME_OVER\<rparr>"

text \<open>A four-cell snake coiled in a square, heading down into the cell of its tail.\<close>

definition coiled :: game where
  "coiled = startedGame
     \<lparr>snake := [\<lparr>pos_x = 5, pos_y = 5\<rparr>, \<lparr>pos_x = 6, pos_y = 5\<rparr>, \<lparr>pos_x = 6, pos_y = 6\<rparr>,
                \<lparr>pos_x = 5, pos_y = 6\<rparr>],
      snakeRef := 1, food := \<lparr>pos_x = 1, pos_y = 1\<rparr>, direction := DOWN, directionRef := DOWN\<rparr>"

section \<open>Properties\<close>

subsection \<open>Food placement returns a free cell, when it returns\<close>

lemma isPositionOccupied_iff: "isPositionOccupied body p \<longleftrightarrow> p \<in> set body"
  by (induction body) (auto simp: isPositionOccupied_def)

lemma generateFood_free:
  "\<not> isPositionOccupied body (shd rs) \<Longrightarrow> generateFood body g rs = Some (g\<lparr>food := shd rs\<rparr>, stl rs)"
  by (subst generateFood.simps) simp

lemma generateFood_occupied:
  "isPositionOccupied body (shd rs) \<Longrightarrow> generateFood body g rs = generateFood body g (stl rs)"
  by (subst generateFood.simps) simp

lemma generateFood_Some_aux:
  assumes "generateFood body g rs = Some r"
  shows "\<exists>k. r = (g\<lparr>food := rs !! k\<rparr>, sdrop (Suc k) rs) \<and> \<not> isPositionOccupied body (rs !! k)"
proof (rule generateFood.raw_induct[OF _ assms])
  fix gf :: "Position list \<Rightarrow> game \<Rightarrow> Position stream \<Rightarrow> (game \<times> Position stream) option"
  fix b h ds y
  assume IH: "\<And>b h ds y. gf b h ds = Some y \<Longrightarrow>
      \<exists>k. y = (h\<lparr>food := ds !! k\<rparr>, sdrop (Suc k) ds) \<and> \<not> isPositionOccupied b (ds !! k)"
  assume step: "(if isPositionOccupied b (shd ds) then gf b h (stl ds)
      else Some (h\<lparr>food := shd ds\<rparr>, stl ds)) = Some y"
  show "\<exists>k. y = (h\<lparr>food := ds !! k\<rparr>, sdrop (Suc k) ds) \<and> \<not> isPositionOccupied b (ds !! k)"
  proof (cases "isPositionOccupied b (shd ds)")
    case True
    with step have "gf b h (stl ds) = Some y" by simp
    from IH[OF this] obtain k where "y = (h\<lparr>food := stl ds !! k\<rparr>, sdrop (Suc k) (stl ds))"
      "\<not> isPositionOccupied b (stl ds !! k)" by blast
    then show ?thesis by (intro exI[of _ "Suc k"]) simp
  next
    case False
    with step show ?thesis by (intro exI[of _ 0]) auto
  qed
qed

lemma generateFood_SomeD:
  assumes "generateFood body g rs = Some (g', rs')"
  obtains k where "g' = g\<lparr>food := rs !! k\<rparr>" "rs' = sdrop (Suc k) rs"
    "\<not> isPositionOccupied body (rs !! k)"
  using generateFood_Some_aux[OF assms] by auto

lemma generateFood_returns:
  "\<not> isPositionOccupied body (rs !! n) \<Longrightarrow> \<exists>k\<le>n. generateFood body g rs = Some (g\<lparr>food := rs !! k\<rparr>, sdrop (Suc k) rs)"
proof (induction n arbitrary: rs)
  case 0
  then show ?case by (simp add: generateFood_free)
next
  case (Suc n)
  show ?case
  proof (cases "isPositionOccupied body (shd rs)")
    case True
    from Suc.prems have "\<not> isPositionOccupied body (stl rs !! n)" by simp
    from Suc.IH[OF this] obtain k where "k \<le> n" "generateFood body g (stl rs) = Some (g\<lparr>food := stl rs !! k\<rparr>, sdrop (Suc k) (stl rs))" by blast
    with True show ?thesis by (intro exI[of _ "Suc k"]) (simp add: generateFood_occupied)
  next
    case False
    then show ?thesis by (intro exI[of _ 0]) (simp add: generateFood_free)
  qed
qed

lemma Position_eq_iff: "(p :: Position) = q \<longleftrightarrow> pos_x p = pos_x q \<and> pos_y p = pos_y q"
  by auto

lemma offBoard_iff:
  "(pos_x h < 0 \<or> pos_x h \<ge> BOARD_SIZE \<or> pos_y h < 0 \<or> pos_y h \<ge> BOARD_SIZE) \<longleftrightarrow> \<not> onBoard h"
  by (auto simp: onBoard_def)

lemma moveSnake_Cons:
  assumes s: "snake g = first # rest" and h: "h = moveHead (directionRef g) first"
  shows "moveSnake g rs =
     (if \<not> onBoard h \<or> isPositionOccupied (snake g) h
      then Some (g\<lparr>gameStatus := GAME_OVER, gameStatusRef := GAME_OVER\<rparr>, rs)
      else if h = food g
      then generateFood (h # snake g)
             (g\<lparr>snake := h # snake g, snakeRef := Suc (snakeRef g), score := score g + 10,
                speed := max MIN_SPEED (speed g - SPEED_INCREMENT)\<rparr>) rs
      else Some (g\<lparr>snake := butlast (h # snake g), snakeRef := Suc (snakeRef g)\<rparr>, rs))"
proof -
  have occ: "list_ex (\<lambda>segment. pos_x segment = pos_x h \<and> pos_y segment = pos_y h) (first # rest)
      = isPositionOccupied (first # rest) h"
    by (simp add: isPositionOccupied_def)
  have eq: "(pos_x h = pos_x (food g) \<and> pos_y h = pos_y (food g)) = (h = food g)"
    by (simp add: Position_eq_iff)
  show ?thesis
    unfolding moveSnake_def s list.case Let_def h[symmetric] offBoard_iff occ eq
    by simp
qed

lemma generateFood_fields:
  assumes "generateFood body g rs = Some (g', rs')"
  shows "snake g' = snake g" "snakeRef g' = snakeRef g" "direction g' = direction g"
    "gameStatus g' = gameStatus g" "score g' = score g" "speed g' = speed g"
    "directionRef g' = directionRef g" "gameStatusRef g' = gameStatusRef g"
  using assms by (auto elim: generateFood_SomeD)

lemma runEffects_regenerate:
  assumes "snakeRef g \<noteq> snakeRef old" "direction g = direction old" "gameStatus g = gameStatus old"
  shows "runEffects old g rs = generateFood (snake g) g rs"
proof (cases "generateFood (snake g) g rs")
  case None
  with assms(1) show ?thesis by (simp add: runEffects_def)
next
  case (Some r)
  obtain g1 rs1 where r: "r = (g1, rs1)" by (cases r)
  from Some r generateFood_fields[of "snake g" g rs g1 rs1] assms(2,3)
  have "direction g1 = direction old" "gameStatus g1 = gameStatus old" by simp_all
  with Some r assms(1) show ?thesis by (simp add: runEffects_def)
qed

lemma runEffects_game_over:
  assumes "gameStatus old \<noteq> GAME_OVER"
  shows "runEffects old (old\<lparr>gameStatus := GAME_OVER, gameStatusRef := GAME_OVER\<rparr>) rs =
     Some (old\<lparr>gameStatus := GAME_OVER, gameStatusRef := GAME_OVER\<rparr>, rs)"
  using assms by (simp add: runEffects_def)

lemma tick_Cons:
  assumes p: "gameStatus g = PLAYING" and s: "snake g = first # rest"
    and h: "h = moveHead (directionRef g) first"
  shows "tick g rs =
     (if \<not> onBoard h \<or> isPositionOccupied (snake g) h
      then Some (g\<lparr>gameStatus := GAME_OVER, gameStatusRef := GAME_OVER\<rparr>, rs)
      else if h = food g
      then (case generateFood (h # snake g)
             (g\<lparr>snake := h # snake g, snakeRef := Suc (snakeRef g), score := score g + 10,
                speed := max MIN_SPEED (speed g - SPEED_INCREMENT)\<rparr>) rs of
              None \<Rightarrow> None
            | Some (g1, rs1) \<Rightarrow> generateFood (h # snake g) g1 rs1)
      else generateFood (butlast (h # snake g))
             (g\<lparr>snake := butlast (h # snake g), snakeRef := Suc (snakeRef g)\<rparr>) rs)"
proof -
  let ?e = "g\<lparr>snake := h # snake g, snakeRef := Suc (snakeRef g), score := score g + 10,
                speed := max MIN_SPEED (speed g - SPEED_INCREMENT)\<rparr>"
  let ?m = "g\<lparr>snake := butlast (h # snake g), snakeRef := Suc (snakeRef g)\<rparr>"
  consider (hit) "\<not> onBoard h \<or> isPositionOccupied (snake g) h"
    | (eat) "\<not> (\<not> onBoard h \<or> isPositionOccupied (snake g) h)" "h = food g"
    | (move) "\<not> (\<not> onBoard h \<or> isPositionOccupied (snake g) h)" "h \<noteq> food g"
    by blast
  then show ?thesis
  proof cases
    case hit
    then have "moveSnake g rs = Some (g\<lparr>gameStatus := GAME_OVER, gameStatusRef := GAME_OVER\<rparr>, rs)"
      by (simp add: moveSnake_Cons[OF s h])
    moreover from p have "runEffects g (g\<lparr>gameStatus := GAME_OVER, gameStatusRef := GAME_OVER\<rparr>) rs =
        Some (g\<lparr>gameStatus := GAME_OVER, gameStatusRef := GAME_OVER\<rparr>, rs)"
      by (simp add: runEffects_game_over)
    ultimately show ?thesis using p hit by (simp add: tick_def)
  next
    case eat
    then have ms: "moveSnake g rs = generateFood (h # snake g) ?e rs"
      by (simp add: moveSnake_Cons[OF s h])
    show ?thesis
    proof (cases "generateFood (h # snake g) ?e rs")
      case None
      with p ms eat show ?thesis by (simp add: tick_def)
    next
      case (Some r)
      obtain g1 rs1 where r: "r = (g1, rs1)" by (cases r)
      from generateFood_fields[of "h # snake g" ?e rs g1 rs1] Some r
      have f: "snake g1 = h # snake g" "snakeRef g1 = Suc (snakeRef g)"
        "direction g1 = direction g" "gameStatus g1 = gameStatus g" by simp_all
      then have "runEffects g g1 rs1 = generateFood (h # snake g) g1 rs1"
        by (simp add: runEffects_regenerate)
      with p ms eat Some r show ?thesis by (simp add: tick_def)
    qed
  next
    case move
    then have ms: "moveSnake g rs = Some (?m, rs)"
      by (simp add: moveSnake_Cons[OF s h])
    have "runEffects g ?m rs = generateFood (snake ?m) ?m rs"
      by (rule runEffects_regenerate) simp_all
    then have "runEffects g ?m rs = generateFood (butlast (h # snake g)) ?m rs" by simp
    with p ms move show ?thesis by (simp add: tick_def)
  qed
qed

lemma onBoard_stl: "\<forall>n. onBoard (rs !! n) \<Longrightarrow> onBoard (stl rs !! m)"
  by (metis snth.simps(2))

lemma stl_snth_sset: "stl rs !! m \<in> sset rs"
  by (metis snth.simps(2) snth_sset)

lemma generateFood_result:
  assumes "generateFood body g rs = Some (g', rs')"
  shows "g' = g\<lparr>food := food g'\<rparr>" "\<not> isPositionOccupied body (food g')" "food g' \<in> sset rs"
    "drawsOnBoard rs \<Longrightarrow> onBoard (food g') \<and> drawsOnBoard rs'"
  using assms by (auto elim!: generateFood_SomeD simp: drawsOnBoard_def sdrop_snth onBoard_stl)

lemma generateFood_supplied:
  assumes "\<forall>k. \<exists>n. \<not> isPositionOccupied body (sdrop k rs !! n)"
  shows "\<exists>g' rs'. generateFood body g rs = Some (g', rs') \<and>
           (\<forall>k. \<exists>n. \<not> isPositionOccupied body (sdrop k rs' !! n))"
proof -
  from assms obtain n where "\<not> isPositionOccupied body (sdrop 0 rs !! n)" by blast
  then have "\<not> isPositionOccupied body (rs !! n)" by simp
  from generateFood_returns[OF this, of g] obtain k where
    k: "generateFood body g rs = Some (g\<lparr>food := rs !! k\<rparr>, sdrop (Suc k) rs)" by blast
  have "\<exists>n. \<not> isPositionOccupied body (sdrop j (sdrop (Suc k) rs) !! n)" for j
    using assms[rule_format, of "Suc k + j"] by (simp add: sdrop_add add.commute)
  with k show ?thesis by blast
qed

subsection \<open>What a tick does\<close>

lemma tick_Nil:
  assumes "gameStatus g = PLAYING" "snake g = []"
  shows "tick g rs = generateFood [] (g\<lparr>snake := [], snakeRef := Suc (snakeRef g)\<rparr>) rs"
  using assms
  by (cases "generateFood [] (g\<lparr>snake := [], snakeRef := Suc (snakeRef g)\<rparr>) rs")
     (auto simp: tick_def moveSnake_def runEffects_def elim!: generateFood_SomeD)

lemma tick_idle: "gameStatus g \<noteq> PLAYING \<Longrightarrow> tick g rs = Some (g, rs)"
  by (simp add: tick_def)

lemma tick_food_off_snake:
  assumes "\<not> isPositionOccupied (snake g) (food g)" "tick g rs = Some (g', rs')"
  shows "\<not> isPositionOccupied (snake g') (food g')"
proof (cases "gameStatus g = PLAYING")
  case False
  with assms show ?thesis by (simp add: tick_idle)
next
  case playing: True
  show ?thesis
  proof (cases "snake g")
    case Nil
    with assms playing show ?thesis
      by (auto simp: tick_Nil isPositionOccupied_def elim!: generateFood_SomeD)
  next
    case (Cons first rest)
    from assms(2) show ?thesis
      unfolding tick_Cons[OF playing Cons refl] using assms(1)
      by (auto split: if_splits option.splits elim!: generateFood_SomeD)
  qed
qed

lemma tick_wellFormed:
  assumes "wellFormed g" "drawsOnBoard rs" "tick g rs = Some (g', rs')"
  shows "wellFormed g'"
proof (cases "gameStatus g = PLAYING")
  case False
  with assms show ?thesis by (simp add: tick_idle)
next
  case playing: True
  from assms(1) obtain first rest where Cons: "snake g = first # rest"
    by (cases "snake g") (auto simp: wellFormed_def)
  from assms(3) show ?thesis
    unfolding tick_Cons[OF playing Cons refl] using assms(1,2)
    by (auto split: if_splits option.splits elim!: generateFood_SomeD
        simp: wellFormed_def drawsOnBoard_def sdrop_snth onBoard_stl)
qed

subsection \<open>Direction requests\<close>

lemma turn_eq:
  "turn d g = (if d \<noteq> opposite (directionRef g) then g\<lparr>direction := d, directionRef := d\<rparr> else g)"
  by (cases d; cases "directionRef g") simp_all

lemma setDirection_eq:
  "setDirection d g rs =
     Some (if gameStatusRef g = PLAYING \<and> d \<noteq> opposite (directionRef g)
           then g\<lparr>direction := d, directionRef := d\<rparr> else g, rs)"
  by (simp add: setDirection_def handleSwipe_def runEffects_def turn_eq)

lemma keyDirection_not_space:
  "keyDirection '' '' = None" "keyDirection ''Spacebar'' = None"
  by (simp_all add: keyDirection_def)

lemma key_switch:
  "(if c then I
    else if n then S
    else if u then f UP else if dn then f DOWN else if l then f LEFT else if r then f RIGHT else S) =
   (if c then I
    else if n then S
    else case (if u then Some UP else if dn then Some DOWN else if l then Some LEFT
               else if r then Some RIGHT else None) of
           None \<Rightarrow> S | Some d \<Rightarrow> f d)"
  by simp

lemma handleKeyDown_keyDirection:
  "handleKeyDown k g rs =
     (if gameStatusRef g = GAME_OVER \<and> (k = '' '' \<or> k = ''Spacebar'') then initGame g rs
      else if gameStatusRef g \<noteq> PLAYING then Some (g, rs)
      else case keyDirection k of None \<Rightarrow> Some (g, rs) | Some d \<Rightarrow> Some (turn d g, rs))"
  unfolding handleKeyDown_def keyDirection_def
  by (rule key_switch[where f = "\<lambda>d. Some (turn d g, rs)"])

lemma keyDown_direction:
  assumes "keyDirection k = Some d"
  shows "keyDown k g rs = setDirection d g rs"
proof -
  have "k \<noteq> '' ''" using assms keyDirection_not_space(1) by (intro notI) simp
  moreover have "k \<noteq> ''Spacebar''" using assms keyDirection_not_space(2) by (intro notI) simp
  ultimately have "handleKeyDown k g rs = Some (handleSwipe d g, rs)"
    using assms by (simp add: handleKeyDown_keyDirection handleSwipe_def)
  then show ?thesis by (simp add: keyDown_def setDirection_def)
qed

subsection \<open>Restart\<close>

lemma reset_result:
  assumes "reset g rs = Some (g', rs')"
  shows "g' = g\<lparr>snake := INITIAL_SNAKE, snakeRef := 0, direction := UP, directionRef := UP,
                score := 0, speed := INITIAL_SPEED, food := food g',
                gameStatus := PLAYING, gameStatusRef := PLAYING\<rparr>"
    and "\<not> isPositionOccupied INITIAL_SNAKE (food g')" and "food g' \<in> sset rs"
    and "drawsOnBoard rs \<Longrightarrow> onBoard (food g')"
  using assms
  by (auto simp: reset_def initGame_def runEffects_def Let_def drawsOnBoard_def sdrop_snth onBoard_stl
      stl_snth_sset split: option.splits if_splits elim!: generateFood_SomeD)

lemma reset_returns:
  assumes "\<forall>k. \<exists>n. \<not> isPositionOccupied INITIAL_SNAKE (sdrop k rs !! n)"
  shows "\<exists>g' rs'. reset g rs = Some (g', rs')"
proof -
  let ?a = "g\<lparr>snake := INITIAL_SNAKE, snakeRef := 0, direction := UP, directionRef := UP,
                score := 0, speed := INITIAL_SPEED\<rparr>"
  from generateFood_supplied[OF assms, of ?a] obtain g1 rs1 where
    1: "generateFood INITIAL_SNAKE ?a rs = Some (g1, rs1)"
    and s1: "\<forall>k. \<exists>n. \<not> isPositionOccupied INITIAL_SNAKE (sdrop k rs1 !! n)" by blast
  from 1 have sn: "snake g1 = INITIAL_SNAKE" by (auto elim!: generateFood_SomeD)
  let ?b = "g1\<lparr>gameStatus := PLAYING, gameStatusRef := PLAYING\<rparr>"
  from generateFood_supplied[OF s1, of ?b] obtain g2 rs2 where
    2: "generateFood INITIAL_SNAKE ?b rs1 = Some (g2, rs2)" by blast
  show ?thesis using 1 2 sn
    by (auto simp: reset_def initGame_def runEffects_def Let_def)
qed

subsection \<open>Every reachable state is well formed\<close>

lemma mount_wellFormed:
  assumes "mount rs = Some (g, rs')" "drawsOnBoard rs"
  shows "wellFormed g"
  using assms
  by (auto simp: mount_def initialState_def INITIAL_SNAKE_def wellFormed_def drawsOnBoard_def
      split: option.splits elim!: generateFood_SomeD)

lemma setDirection_wellFormed:
  assumes "wellFormed g" "setDirection d g rs = Some (g', rs')"
  shows "wellFormed g'"
  using assms by (auto simp: setDirection_eq wellFormed_def split: if_splits)

lemma reset_wellFormed:
  assumes "reset g rs = Some (g', rs')" "drawsOnBoard rs"
  shows "wellFormed g'"
proof -
  note r = reset_result[OF assms(1)]
  have "snake g' = INITIAL_SNAKE" "directionRef g' = direction g'" "gameStatusRef g' = gameStatus g'"
    by (subst r(1), simp)+
  with r(2) r(4)[OF assms(2)] show ?thesis by (simp add: wellFormed_def INITIAL_SNAKE_def)
qed

lemma keyDown_cases:
  "keyDown k g rs = reset g rs \<and> gameStatusRef g = GAME_OVER \<and> (k = '' '' \<or> k = ''Spacebar'') \<or>
   (\<exists>d. keyDown k g rs = setDirection d g rs) \<or>
   keyDown k g rs = Some (g, rs)"
proof (cases "gameStatusRef g = GAME_OVER \<and> (k = '' '' \<or> k = ''Spacebar'')")
  case True
  then have "handleKeyDown k g rs = initGame g rs"
    unfolding handleKeyDown_keyDirection by (rule if_P)
  with True show ?thesis by (simp add: keyDown_def reset_def)
next
  case False
  show ?thesis
  proof (cases "keyDirection k")
    case None
    have "handleKeyDown k g rs = Some (g, rs)"
      by (simp only: handleKeyDown_keyDirection if_not_P[OF False] None option.case if_cancel)
    then show ?thesis by (simp add: keyDown_def runEffects_def)
  next
    case (Some d)
    then show ?thesis using keyDown_direction by blast
  qed
qed

lemma keyDown_wellFormed:
  assumes "wellFormed g" "drawsOnBoard rs" "keyDown k g rs = Some (g', rs')"
  shows "wellFormed g'"
  using keyDown_cases[of k g rs] assms
  by (metis reset_wellFormed setDirection_wellFormed option.inject prod.inject)

lemma reachable_wellFormed: "reachable g \<Longrightarrow> wellFormed g"
proof (induction rule: reachable.induct)
  case (mounted rs g rs')
  then show ?case by (simp add: mount_wellFormed)
next
  case (ticked g rs g' rs')
  then show ?case by (blast intro: tick_wellFormed)
next
  case (key g rs k g' rs')
  then show ?case by (blast intro: keyDown_wellFormed)
next
  case (arrow g rs dir g' rs')
  then show ?case by (blast intro: setDirection_wellFormed)
next
  case (button g rs g' rs')
  then show ?case by (blast intro: reset_wellFormed)
qed

lemma sset_sdrop_subset: "sset (sdrop n rs) \<subseteq> sset rs"
proof (induction n arbitrary: rs)
  case 0
  show ?case by simp
next
  case (Suc n)
  have "sset (sdrop n (stl rs)) \<subseteq> sset (stl rs)" by (rule Suc.IH)
  also have "\<dots> \<subseteq> sset rs" by (auto intro: stl_sset)
  finally show ?case by simp
qed

lemma generateFood_sset:
  assumes "generateFood body g rs = Some (g', rs')"
  shows "sset rs' \<subseteq> sset rs"
proof -
  from assms obtain k where "rs' = sdrop (Suc k) rs" by (rule generateFood_SomeD)
  then show ?thesis by (simp only: sset_sdrop_subset)
qed

lemma tick_Cons_cases:
  assumes p: "gameStatus g = PLAYING" and s: "snake g = first # rest"
    and h: "h = moveHead (directionRef g) first" and t: "tick g rs = Some (g', rs')"
  obtains (hit) "\<not> onBoard h \<or> isPositionOccupied (snake g) h"
      "g' = g\<lparr>gameStatus := GAME_OVER, gameStatusRef := GAME_OVER\<rparr>" "rs' = rs"
  | (eat) "onBoard h" "\<not> isPositionOccupied (snake g) h" "h = food g"
      "g' = g\<lparr>snake := h # snake g, snakeRef := Suc (snakeRef g), score := score g + 10,
              speed := max MIN_SPEED (speed g - SPEED_INCREMENT), food := food g'\<rparr>"
      "\<not> isPositionOccupied (h # snake g) (food g')" "food g' \<in> sset rs"
  | (move) "onBoard h" "\<not> isPositionOccupied (snake g) h" "h \<noteq> food g"
      "g' = g\<lparr>snake := butlast (h # snake g), snakeRef := Suc (snakeRef g), food := food g'\<rparr>"
      "\<not> isPositionOccupied (butlast (h # snake g)) (food g')" "food g' \<in> sset rs"
proof -
  let ?e = "g\<lparr>snake := h # snake g, snakeRef := Suc (snakeRef g), score := score g + 10,
                speed := max MIN_SPEED (speed g - SPEED_INCREMENT)\<rparr>"
  let ?m = "g\<lparr>snake := butlast (h # snake g), snakeRef := Suc (snakeRef g)\<rparr>"
  note tc = tick_Cons[OF p s h, of rs]
  consider (a) "\<not> onBoard h \<or> isPositionOccupied (snake g) h"
    | (b) "onBoard h" "\<not> isPositionOccupied (snake g) h" "h = food g"
    | (c) "onBoard h" "\<not> isPositionOccupied (snake g) h" "h \<noteq> food g"
    by blast
  then show thesis
  proof cases
    case a
    with tc t have "g' = g\<lparr>gameStatus := GAME_OVER, gameStatusRef := GAME_OVER\<rparr>" "rs' = rs"
      by simp_all
    with a show thesis by (rule hit)
  next
    case b
    with tc t have c2: "(case generateFood (h # snake g) ?e rs of None \<Rightarrow> None
        | Some (g1, rs1) \<Rightarrow> generateFood (h # snake g) g1 rs1) = Some (g', rs')"
      by simp
    then obtain g1 rs1 where 1: "generateFood (h # snake g) ?e rs = Some (g1, rs1)"
      and 2: "generateFood (h # snake g) g1 rs1 = Some (g', rs')"
      by (cases "generateFood (h # snake g) ?e rs") auto
    from generateFood_result(1)[OF 1] generateFood_result(1)[OF 2]
    have "g' = ?e\<lparr>food := food g1\<rparr>\<lparr>food := food g'\<rparr>" by simp
    then have eq: "g' = g\<lparr>snake := h # snake g, snakeRef := Suc (snakeRef g), score := score g + 10,
              speed := max MIN_SPEED (speed g - SPEED_INCREMENT), food := food g'\<rparr>" by simp
    from generateFood_result(3)[OF 2] generateFood_sset[OF 1] have "food g' \<in> sset rs" by blast
    from b eq generateFood_result(2)[OF 2] this show thesis by (rule eat)
  next
    case c
    with tc t have 1: "generateFood (butlast (h # snake g)) ?m rs = Some (g', rs')" by simp
    from generateFood_result(1)[OF 1]
    have eq: "g' = g\<lparr>snake := butlast (h # snake g), snakeRef := Suc (snakeRef g), food := food g'\<rparr>"
      by simp
    from c eq generateFood_result(2,3)[OF 1] show thesis by (rule move)
  qed
qed



lemma tick_head:
  assumes "gameStatus g = PLAYING" and "snake g = first # rest"
    and "h = moveHead (directionRef g) first"
    and "onBoard h" and "\<not> isPositionOccupied (snake g) h"
    and "tick g rs = Some (g', rs')"
  shows "\<exists>tail. snake g' = h # tail"
  using assms(1,2,3,6)
proof (cases rule: tick_Cons_cases)
  case hit
  with assms(4,5) show ?thesis by simp
next
  case eat
  from eat(4) have "snake g' = h # snake g" by (rule ssubst) simp
  then show ?thesis by blast
next
  case move
  from move(4) have "snake g' = butlast (h # snake g)" by (rule ssubst) simp
  with assms(2) show ?thesis by simp
qed

subsection \<open>Example runs\<close>

lemmas example_defs = startedGame_def movedGame_def foodAhead_def atLeftWall_def coiled_def
  endedGame_def INITIAL_SNAKE_def INITIAL_SPEED_def MIN_SPEED_def SPEED_INCREMENT_def BOARD_SIZE_def

lemma generateFood_sevens:
  assumes "\<not> isPositionOccupied body \<lparr>pos_x = 7, pos_y = 7\<rparr>"
  shows "generateFood body g sevens = Some (g\<lparr>food := \<lparr>pos_x = 7, pos_y = 7\<rparr>\<rparr>, sevens)"
  using assms generateFood_free[of body sevens g] by (simp add: sevens_def)

lemma sevens_free_initially: "\<not> isPositionOccupied INITIAL_SNAKE \<lparr>pos_x = 7, pos_y = 7\<rparr>"
  by (simp add: isPositionOccupied_def INITIAL_SNAKE_def)

lemma reachable_startedGame: "reachable startedGame"
proof -
  let ?p = "\<lparr>pos_x = 5, pos_y = 5\<rparr>"
  let ?rs = "sconst ?p"
  have d: "drawsOnBoard ?rs" by (simp add: drawsOnBoard_def onBoard_def BOARD_SIZE_def)
  have free: "\<not> isPositionOccupied INITIAL_SNAKE (shd ?rs)"
    by (simp add: isPositionOccupied_def INITIAL_SNAKE_def)
  have gen: "generateFood INITIAL_SNAKE g ?rs = Some (g\<lparr>food := ?p\<rparr>, ?rs)" for g
    using generateFood_free[OF free, of g] by simp
  have "mount ?rs = Some (initialState, ?rs)"
    by (simp add: mount_def gen initialState_def)
  with d have m: "reachable initialState" by (rule reachable.mounted)
  have "reset initialState ?rs = Some (startedGame, ?rs)"
    by (simp add: reset_def initGame_def gen initialState_def runEffects_def startedGame_def)
  with m _ d show ?thesis by (rule reachable.button) (simp add: initialState_def)
qed

lemma tick_startedGame: "tick startedGame sevens = Some (movedGame, sevens)"
proof -
  have "tick startedGame sevens =
      generateFood (snake movedGame) (startedGame\<lparr>snake := snake movedGame, snakeRef := 1\<rparr>) sevens"
    using tick_Cons[of startedGame "\<lparr>pos_x = 10, pos_y = 10\<rparr>" "tl INITIAL_SNAKE"
        "\<lparr>pos_x = 10, pos_y = 9\<rparr>" sevens]
    by (simp add: example_defs onBoard_def isPositionOccupied_def)
  also have "\<dots> = Some (movedGame, sevens)"
    by (subst generateFood_sevens) (simp_all add: example_defs isPositionOccupied_def)
  finally show ?thesis .
qed

lemma moveSnake_startedGame:
  "moveSnake startedGame sevens =
     Some (startedGame\<lparr>snake := snake movedGame, snakeRef := 1\<rparr>, sevens)"
  using moveSnake_Cons[of startedGame "\<lparr>pos_x = 10, pos_y = 10\<rparr>" "tl INITIAL_SNAKE"
      "\<lparr>pos_x = 10, pos_y = 9\<rparr>" sevens]
  by (simp add: example_defs onBoard_def isPositionOccupied_def)

lemma tick_movedGame_down:
  "tick (movedGame\<lparr>direction := DOWN, directionRef := DOWN\<rparr>) sevens =
     Some (movedGame\<lparr>direction := DOWN, directionRef := DOWN,
                     gameStatus := GAME_OVER, gameStatusRef := GAME_OVER\<rparr>, sevens)"
proof -
  let ?g = "movedGame\<lparr>direction := DOWN, directionRef := DOWN\<rparr>"
  have 1: "gameStatus ?g = PLAYING" by (simp add: movedGame_def startedGame_def)
  have 2: "snake ?g = \<lparr>pos_x = 10, pos_y = 9\<rparr> #
      [\<lparr>pos_x = 10, pos_y = 10\<rparr>, \<lparr>pos_x = 10, pos_y = 11\<rparr>]"
    by (simp add: movedGame_def)
  have 3: "\<lparr>pos_x = 10, pos_y = 10\<rparr> = moveHead (directionRef ?g) \<lparr>pos_x = 10, pos_y = 9\<rparr>"
    by simp
  have "isPositionOccupied (snake ?g) \<lparr>pos_x = 10, pos_y = 10\<rparr>"
    by (simp add: 2 isPositionOccupied_def)
  then show ?thesis by (simp add: tick_Cons[OF 1 2 3])
qed

section \<open>The claims\<close>



text \<open>
  Claim C2. A tick whose moved head is on the board, off the snake and on the food cell adds
  10 to the score, sets the speed to \<open>max MIN_SPEED (speed - SPEED_INCREMENT)\<close>, that is
  \<open>max 50 (speed - 5)\<close>, keeps the whole previous snake behind the new head, and leaves
  the food on a freshly drawn cell that is not on the new snake. The tick returns whenever
  free candidates keep arriving in the random source.
\<close>
theorem tick_eats_food:
  assumes "gameStatus g = PLAYING" and "snake g = first # rest"
    and "h = moveHead (directionRef g) first"
    and "0 \<le> pos_x h \<and> pos_x h < 20 \<and> 0 \<le> pos_y h \<and> pos_y h < 20"
    and "\<not> isPositionOccupied (snake g) h"
    and "h = food g"
  shows "(\<forall>g' rs'. tick g rs = Some (g', rs') \<longrightarrow>
            score g' = score g + 10 \<and>
            speed g' = max MIN_SPEED (speed g - SPEED_INCREMENT) \<and>
            speed g' = max 50 (speed g - 5) \<and>
            snake g' = h # snake g \<and> length (snake g') = length (snake g) + 1 \<and>
            food g' \<in> sset rs \<and> \<not> isPositionOccupied (snake g') (food g') \<and>
            gameStatus g' = PLAYING \<and> direction g' = direction g) \<and>
         ((\<forall>k. \<exists>n. \<not> isPositionOccupied (h # snake g) (sdrop k rs !! n)) \<longrightarrow>
            (\<exists>g' rs'. tick g rs = Some (g', rs')))"
proof (intro conjI allI impI)
  fix g' rs'
  assume t: "tick g rs = Some (g', rs')"
  from assms(4) have on: "onBoard h" by (simp add: onBoard_def BOARD_SIZE_def)
  from assms(1,2,3) t
  have r: "g' = g\<lparr>snake := h # snake g, snakeRef := Suc (snakeRef g), score := score g + 10,
              speed := max MIN_SPEED (speed g - SPEED_INCREMENT), food := food g'\<rparr>
          \<and> \<not> isPositionOccupied (h # snake g) (food g') \<and> food g' \<in> sset rs"
  proof (cases rule: tick_Cons_cases)
    case hit
    with on assms(5) show ?thesis by simp
  next
    case eat
    then show ?thesis by simp
  next
    case move
    with assms(6) show ?thesis by simp
  qed
  then have eq: "g' = g\<lparr>snake := h # snake g, snakeRef := Suc (snakeRef g), score := score g + 10,
              speed := max MIN_SPEED (speed g - SPEED_INCREMENT), food := food g'\<rparr>" by simp
  have sc: "score g' = score g + 10" by (subst eq) simp
  have sp: "speed g' = max MIN_SPEED (speed g - SPEED_INCREMENT)" by (subst eq) simp
  have sn: "snake g' = h # snake g" by (subst eq) simp
  have st: "gameStatus g' = gameStatus g" by (subst eq) simp
  have di: "direction g' = direction g" by (subst eq) simp
  show "score g' = score g + 10" by (fact sc)
  show "speed g' = max MIN_SPEED (speed g - SPEED_INCREMENT)" by (fact sp)
  show "speed g' = max 50 (speed g - 5)" using sp by (simp add: MIN_SPEED_def SPEED_INCREMENT_def)
  show "snake g' = h # snake g" by (fact sn)
  show "length (snake g') = length (snake g) + 1" using sn by simp
  show "food g' \<in> sset rs" using r by simp
  show "\<not> isPositionOccupied (snake g') (food g')" using r sn by simp
  show "gameStatus g' = PLAYING" using st assms(1) by simp
  show "direction g' = direction g" by (fact di)
next
  assume sup: "\<forall>k. \<exists>n. \<not> isPositionOccupied (h # snake g) (sdrop k rs !! n)"
  let ?e = "g\<lparr>snake := h # snake g, snakeRef := Suc (snakeRef g), score := score g + 10,
                speed := max MIN_SPEED (speed g - SPEED_INCREMENT)\<rparr>"
  from assms(4) have on: "onBoard h" by (simp add: onBoard_def BOARD_SIZE_def)
  from generateFood_supplied[OF sup, of ?e] obtain g1 rs1 where
    1: "generateFood (h # snake g) ?e rs = Some (g1, rs1)"
    and s1: "\<forall>k. \<exists>n. \<not> isPositionOccupied (h # snake g) (sdrop k rs1 !! n)" by blast
  from generateFood_supplied[OF s1, of g1] obtain g2 rs2 where
    2: "generateFood (h # snake g) g1 rs1 = Some (g2, rs2)" by blast
  have "tick g rs = Some (g2, rs2)"
    using on assms(5,6) 1 2 by (simp add: tick_Cons[OF assms(1,2,3)])
  then show "\<exists>g' rs'. tick g rs = Some (g', rs')" by blast
qed


theorem tick_eats_food_witness:
  "gameStatus foodAhead = PLAYING \<and>
   food foodAhead = moveHead (directionRef foodAhead) \<lparr>pos_x = 10, pos_y = 10\<rparr> \<and>
   \<not> isPositionOccupied (snake foodAhead) (food foodAhead) \<and>
   (\<exists>g' rs'. tick foodAhead sevens = Some (g', rs') \<and> score g' = 10 \<and> speed g' = 145 \<and>
      snake g' = \<lparr>pos_x = 10, pos_y = 9\<rparr> # INITIAL_SNAKE \<and>
      \<not> isPositionOccupied (snake g') (food g'))"
proof -
  let ?h = "\<lparr>pos_x = 10, pos_y = 9\<rparr>"
  have 1: "gameStatus foodAhead = PLAYING" by (simp add: foodAhead_def startedGame_def)
  have 2: "snake foodAhead = \<lparr>pos_x = 10, pos_y = 10\<rparr> # tl INITIAL_SNAKE"
    by (simp add: foodAhead_def startedGame_def INITIAL_SNAKE_def)
  have 3: "?h = moveHead (directionRef foodAhead) \<lparr>pos_x = 10, pos_y = 10\<rparr>"
    by (simp add: foodAhead_def startedGame_def)
  have 4: "0 \<le> pos_x ?h \<and> pos_x ?h < 20 \<and> 0 \<le> pos_y ?h \<and> pos_y ?h < 20" by simp
  have 5: "\<not> isPositionOccupied (snake foodAhead) ?h"
    by (simp add: foodAhead_def startedGame_def INITIAL_SNAKE_def isPositionOccupied_def)
  have 6: "?h = food foodAhead" by (simp add: foodAhead_def)
  have sn: "snake foodAhead = INITIAL_SNAKE" by (simp add: foodAhead_def startedGame_def)
  have sc: "score foodAhead = 0" "speed foodAhead = 150"
    by (simp_all add: foodAhead_def startedGame_def INITIAL_SPEED_def)
  have "\<not> isPositionOccupied (?h # snake foodAhead) \<lparr>pos_x = 7, pos_y = 7\<rparr>"
    by (simp add: sn INITIAL_SNAKE_def isPositionOccupied_def)
  then have 7: "\<forall>k. \<exists>n. \<not> isPositionOccupied (?h # snake foodAhead) (sdrop k sevens !! n)"
    by (simp add: sevens_def)
  from tick_eats_food[OF 1 2 3 4 5 6, of sevens] 7
  obtain g' rs' where t: "tick foodAhead sevens = Some (g', rs')" by blast
  with tick_eats_food[OF 1 2 3 4 5 6, of sevens]
  have c: "score g' = score foodAhead + 10 \<and> speed g' = max 50 (speed foodAhead - 5) \<and>
      snake g' = ?h # snake foodAhead \<and> \<not> isPositionOccupied (snake g') (food g')"
    by blast
  then have "score g' = 10" "speed g' = 145" "snake g' = ?h # INITIAL_SNAKE"
    by (simp_all add: sc sn)
  moreover from c have "\<not> isPositionOccupied (snake g') (food g')" by blast
  ultimately show ?thesis using t 1 3 5 6 by auto
qed

text \<open>
  Claim C3. The cell that \<^verbatim>\<open>generateFood\<close> stores is not on the snake it was given; in
  every state the component can reach the food is not on the snake; and after any tick from
  such a state the food is not on the snake.
\<close>
theorem food_never_on_snake:
  "(generateFood body g rs = Some (g', rs') \<longrightarrow> \<not> isPositionOccupied body (food g')) \<and>
   (reachable h \<longrightarrow> \<not> isPositionOccupied (snake h) (food h)) \<and>
   (reachable h \<longrightarrow> tick h ds = Some (h', ds') \<longrightarrow> \<not> isPositionOccupied (snake h') (food h'))"
proof (intro conjI impI)
  assume "generateFood body g rs = Some (g', rs')"
  then show "\<not> isPositionOccupied body (food g')" by (rule generateFood_result(2))
next
  assume "reachable h"
  then show "\<not> isPositionOccupied (snake h) (food h)"
    using reachable_wellFormed[of h] by (simp add: wellFormed_def)
next
  assume r: "reachable h" and t: "tick h ds = Some (h', ds')"
  from reachable_wellFormed[OF r] have "\<not> isPositionOccupied (snake h) (food h)"
    by (simp add: wellFormed_def)
  then show "\<not> isPositionOccupied (snake h') (food h')"
    using t by (rule tick_food_off_snake)
qed

theorem food_never_on_snake_witness:
  "generateFood INITIAL_SNAKE startedGame sevens =
     Some (startedGame\<lparr>food := \<lparr>pos_x = 7, pos_y = 7\<rparr>\<rparr>, sevens) \<and>
   \<not> isPositionOccupied INITIAL_SNAKE \<lparr>pos_x = 7, pos_y = 7\<rparr> \<and>
   reachable startedGame \<and> \<not> isPositionOccupied (snake startedGame) (food startedGame) \<and>
   tick startedGame sevens = Some (movedGame, sevens) \<and>
   \<not> isPositionOccupied (snake movedGame) (food movedGame)"
proof -
  note g = generateFood_sevens[OF sevens_free_initially, of startedGame]
  from food_never_on_snake[of INITIAL_SNAKE startedGame sevens
      "startedGame\<lparr>food := \<lparr>pos_x = 7, pos_y = 7\<rparr>\<rparr>" sevens startedGame sevens movedGame sevens]
    g reachable_startedGame tick_startedGame
  show ?thesis by simp
qed

text \<open>
  Claim C4 says that a tick that neither collides nor eats leaves the food where it was.
  \<^verbatim>\<open>moveSnake\<close> itself does leave it, but the effect commented
  \<^verbatim>\<open>// Initialize food position\<close> depends on \<^verbatim>\<open>snake\<close>, so it runs after every move and
  draws a new food cell. Here the started game, with the food at \<open>(5, 5)\<close> and the head
  moving to \<open>(10, 9)\<close>, ends the tick with the food at the drawn cell \<open>(7, 7)\<close>; score,
  speed and status are unchanged.
\<close>
theorem tick_without_eating_redraws_food:
  "gameStatus startedGame = PLAYING \<and> food startedGame = \<lparr>pos_x = 5, pos_y = 5\<rparr> \<and>
   moveHead (directionRef startedGame) \<lparr>pos_x = 10, pos_y = 10\<rparr> = \<lparr>pos_x = 10, pos_y = 9\<rparr> \<and>
   moveSnake startedGame sevens =
     Some (startedGame\<lparr>snake := snake movedGame, snakeRef := 1\<rparr>, sevens) \<and>
   tick startedGame sevens = Some (movedGame, sevens) \<and>
   food movedGame = \<lparr>pos_x = 7, pos_y = 7\<rparr> \<and> food movedGame \<noteq> food startedGame \<and>
   score movedGame = score startedGame \<and> speed movedGame = speed startedGame \<and>
   gameStatus movedGame = gameStatus startedGame"
proof -
  have "gameStatus startedGame = PLAYING" "food startedGame = \<lparr>pos_x = 5, pos_y = 5\<rparr>"
    "moveHead (directionRef startedGame) \<lparr>pos_x = 10, pos_y = 10\<rparr> = \<lparr>pos_x = 10, pos_y = 9\<rparr>"
    "food movedGame = \<lparr>pos_x = 7, pos_y = 7\<rparr>" "food movedGame \<noteq> food startedGame"
    "score movedGame = score startedGame" "speed movedGame = speed startedGame"
    "gameStatus movedGame = gameStatus startedGame"
    by (simp_all add: movedGame_def startedGame_def)
  with moveSnake_startedGame tick_startedGame show ?thesis by blast
qed

text \<open>
  Claim C5. A tick whose moved head lies outside the board (\<open>x < 0\<close>, \<open>x \<ge> 20\<close>,
  \<open>y < 0\<close> or \<open>y \<ge> 20\<close>) sets the status, and the ref that mirrors it, to
  \<^verbatim>\<open>GAME_OVER\<close> and changes nothing else: snake, score, speed, food and direction keep
  their values and no random candidate is drawn.
\<close>
theorem tick_wall_collision:
  assumes "gameStatus g = PLAYING" and "snake g = first # rest"
    and "h = moveHead (directionRef g) first"
    and "pos_x h < 0 \<or> pos_x h \<ge> 20 \<or> pos_y h < 0 \<or> pos_y h \<ge> 20"
  shows "tick g rs = Some (g\<lparr>gameStatus := GAME_OVER, gameStatusRef := GAME_OVER\<rparr>, rs)"
proof -
  from assms(4) have "\<not> onBoard h" by (auto simp: onBoard_def BOARD_SIZE_def)
  then show ?thesis by (simp add: tick_Cons[OF assms(1,2,3)])
qed

theorem tick_wall_collision_witness:
  "gameStatus atLeftWall = PLAYING \<and>
   pos_x (moveHead (directionRef atLeftWall) \<lparr>pos_x = 0, pos_y = 5\<rparr>) = - 1 \<and>
   tick atLeftWall sevens = Some (atLeftWall\<lparr>gameStatus := GAME_OVER, gameStatusRef := GAME_OVER\<rparr>, sevens)"
  using tick_wall_collision[of atLeftWall "\<lparr>pos_x = 0, pos_y = 5\<rparr>"
      "[\<lparr>pos_x = 1, pos_y = 5\<rparr>, \<lparr>pos_x = 2, pos_y = 5\<rparr>]" "\<lparr>pos_x = - 1, pos_y = 5\<rparr>" sevens]
  by (simp add: example_defs)

text \<open>
  Claim C6. In a state whose refs mirror the state (every reachable state), a direction
  request changes nothing unless the status is \<^verbatim>\<open>PLAYING\<close> and the request is not the
  reverse of the current direction; otherwise the request becomes the direction, and the
  next tick moves the head in it (the new head leads the snake unless that tick ends the
  game). A direction key does what the request for its direction does.
\<close>
theorem setDirection_guard:
  assumes "gameStatusRef g = gameStatus g" and "directionRef g = direction g"
  shows "setDirection d g rs =
           Some (if gameStatus g = PLAYING \<and> d \<noteq> opposite (direction g)
                 then g\<lparr>direction := d, directionRef := d\<rparr> else g, rs) \<and>
         (keyDirection k = Some d \<longrightarrow> keyDown k g rs = setDirection d g rs) \<and>
         (gameStatus g = PLAYING \<and> d \<noteq> opposite (direction g) \<and> snake g = first # rest \<and>
          onBoard (moveHead d first) \<and> \<not> isPositionOccupied (snake g) (moveHead d first) \<and>
          setDirection d g rs = Some (g1, rs1) \<and> tick g1 rs1 = Some (g2, rs2) \<longrightarrow>
            (\<exists>tail. snake g2 = moveHead d first # tail))"
proof (intro conjI impI)
  show eq: "setDirection d g rs =
           Some (if gameStatus g = PLAYING \<and> d \<noteq> opposite (direction g)
                 then g\<lparr>direction := d, directionRef := d\<rparr> else g, rs)"
    using assms by (simp add: setDirection_eq)
  show "keyDown k g rs = setDirection d g rs" if "keyDirection k = Some d"
    using that by (rule keyDown_direction)
  assume a: "gameStatus g = PLAYING \<and> d \<noteq> opposite (direction g) \<and> snake g = first # rest \<and>
          onBoard (moveHead d first) \<and> \<not> isPositionOccupied (snake g) (moveHead d first) \<and>
          setDirection d g rs = Some (g1, rs1) \<and> tick g1 rs1 = Some (g2, rs2)"
  with eq have g1: "g1 = g\<lparr>direction := d, directionRef := d\<rparr>" by simp
  have p: "gameStatus g1 = PLAYING" and s: "snake g1 = first # rest"
    and h: "moveHead d first = moveHead (directionRef g1) first"
    using a by (simp_all add: g1)
  have sg: "snake g1 = snake g" by (simp add: g1)
  from a have "onBoard (moveHead d first)" "\<not> isPositionOccupied (snake g1) (moveHead d first)"
    "tick g1 rs1 = Some (g2, rs2)" unfolding sg by blast+
  with p s h show "\<exists>tail. snake g2 = moveHead d first # tail" by (rule tick_head)
qed

theorem setDirection_guard_witness:
  "gameStatusRef startedGame = gameStatus startedGame \<and>
   directionRef startedGame = direction startedGame \<and> direction startedGame = UP \<and>
   setDirection LEFT startedGame sevens =
     Some (startedGame\<lparr>direction := LEFT, directionRef := LEFT\<rparr>, sevens) \<and>
   setDirection DOWN startedGame sevens = Some (startedGame, sevens) \<and>
   keyDown ''a'' startedGame sevens =
     Some (startedGame\<lparr>direction := LEFT, directionRef := LEFT\<rparr>, sevens) \<and>
   setDirection LEFT endedGame sevens = Some (endedGame, sevens)"
proof -
  have 1: "gameStatusRef startedGame = gameStatus startedGame"
    and 2: "directionRef startedGame = direction startedGame"
    and 3: "direction startedGame = UP" "gameStatus startedGame = PLAYING"
    by (simp_all add: startedGame_def)
  have 4: "gameStatusRef endedGame = gameStatus endedGame"
    and 5: "directionRef endedGame = direction endedGame"
    and 6: "gameStatus endedGame = GAME_OVER"
    by (simp_all add: endedGame_def atLeftWall_def startedGame_def)
  have k: "keyDirection ''a'' = Some LEFT" by (simp add: keyDirection_def)
  from setDirection_guard[OF 1 2, of LEFT sevens "''a''"] k 3
  have a: "setDirection LEFT startedGame sevens =
      Some (startedGame\<lparr>direction := LEFT, directionRef := LEFT\<rparr>, sevens)"
    and b: "keyDown ''a'' startedGame sevens = setDirection LEFT startedGame sevens"
    by simp_all
  from setDirection_guard[OF 1 2, of DOWN sevens] 3
  have c: "setDirection DOWN startedGame sevens = Some (startedGame, sevens)" by simp
  from setDirection_guard[OF 4 5, of LEFT sevens] 6
  have d: "setDirection LEFT endedGame sevens = Some (endedGame, sevens)" by simp
  from 1 2 3 a b c d show ?thesis by simp
qed

text \<open>
  Claim C7. Once the status is \<^verbatim>\<open>GAME_OVER\<close>, a tick, and any run of ticks, changes
  nothing: the state and the random source are returned as they were.
\<close>
theorem ticks_after_game_over:
  assumes "gameStatus g = GAME_OVER"
  shows "tick g rs = Some (g, rs) \<and> ticks n g rs = Some (g, rs)"
proof -
  from assms have one: "tick g rs = Some (g, rs)" by (simp add: tick_idle)
  then have "ticks n g rs = Some (g, rs)" by (induction n) simp_all
  with one show ?thesis by simp
qed

theorem ticks_after_game_over_witness:
  "gameStatus endedGame = GAME_OVER \<and> tick endedGame sevens = Some (endedGame, sevens) \<and>
   ticks 3 endedGame sevens = Some (endedGame, sevens)"
  using ticks_after_game_over[of endedGame sevens 3]
  by (simp add: endedGame_def)

text \<open>
  Claim C8. From any state, a restart sets the snake to
  \<open>[(10,10), (10,11), (10,12)]\<close>, the direction to \<^verbatim>\<open>UP\<close>, the score to 0, the speed
  to 150 and the status to \<^verbatim>\<open>PLAYING\<close>, and leaves the food on a freshly drawn cell that
  is not on the snake. It returns whenever free candidates keep arriving in the random
  source.
\<close>
theorem reset_reinitialises:
  "(\<forall>g' rs'. reset g rs = Some (g', rs') \<longrightarrow>
      snake g' = [\<lparr>pos_x = 10, pos_y = 10\<rparr>, \<lparr>pos_x = 10, pos_y = 11\<rparr>, \<lparr>pos_x = 10, pos_y = 12\<rparr>] \<and>
      direction g' = UP \<and> directionRef g' = UP \<and> score g' = 0 \<and> speed g' = 150 \<and>
      food g' \<in> sset rs \<and> \<not> isPositionOccupied (snake g') (food g') \<and>
      gameStatus g' = PLAYING \<and> gameStatusRef g' = PLAYING) \<and>
   ((\<forall>k. \<exists>n. \<not> isPositionOccupied INITIAL_SNAKE (sdrop k rs !! n)) \<longrightarrow>
      (\<exists>g' rs'. reset g rs = Some (g', rs')))"
proof (intro conjI allI impI)
  fix g' rs'
  assume r: "reset g rs = Some (g', rs')"
  note res = reset_result[OF r]
  have f: "snake g' = INITIAL_SNAKE" "direction g' = UP" "directionRef g' = UP" "score g' = 0"
    "speed g' = INITIAL_SPEED" "gameStatus g' = PLAYING" "gameStatusRef g' = PLAYING"
    by (subst res(1), simp)+
  show "snake g' = [\<lparr>pos_x = 10, pos_y = 10\<rparr>, \<lparr>pos_x = 10, pos_y = 11\<rparr>, \<lparr>pos_x = 10, pos_y = 12\<rparr>]"
    using f(1) by (simp add: INITIAL_SNAKE_def)
  show "direction g' = UP" "directionRef g' = UP" "score g' = 0" "gameStatus g' = PLAYING"
    "gameStatusRef g' = PLAYING" by (fact f)+
  show "speed g' = 150" using f(5) by (simp add: INITIAL_SPEED_def)
  show "food g' \<in> sset rs" by (fact res(3))
  show "\<not> isPositionOccupied (snake g') (food g')" using res(2) f(1) by simp
next
  assume "\<forall>k. \<exists>n. \<not> isPositionOccupied INITIAL_SNAKE (sdrop k rs !! n)"
  then show "\<exists>g' rs'. reset g rs = Some (g', rs')" by (rule reset_returns)
qed

theorem reset_reinitialises_witness:
  "(\<forall>k. \<exists>n. \<not> isPositionOccupied INITIAL_SNAKE (sdrop k sevens !! n)) \<and>
   (\<exists>g' rs'. reset endedGame sevens = Some (g', rs') \<and>
      snake g' = INITIAL_SNAKE \<and> direction g' = UP \<and> score g' = 0 \<and> speed g' = 150 \<and>
      gameStatus g' = PLAYING \<and> \<not> isPositionOccupied (snake g') (food g'))"
proof -
  have sup: "\<forall>k. \<exists>n. \<not> isPositionOccupied INITIAL_SNAKE (sdrop k sevens !! n)"
    using sevens_free_initially by (simp add: sevens_def)
  from reset_reinitialises[of endedGame sevens] sup
  obtain g' rs' where t: "reset endedGame sevens = Some (g', rs')" by blast
  with reset_reinitialises[of endedGame sevens]
  have c: "snake g' = [\<lparr>pos_x = 10, pos_y = 10\<rparr>, \<lparr>pos_x = 10, pos_y = 11\<rparr>, \<lparr>pos_x = 10, pos_y = 12\<rparr>] \<and>
      direction g' = UP \<and> score g' = 0 \<and> speed g' = 150 \<and> gameStatus g' = PLAYING \<and>
      \<not> isPositionOccupied (snake g') (food g')"
    by blast
  then have "snake g' = INITIAL_SNAKE" by (simp add: INITIAL_SNAKE_def)
  with c t sup show ?thesis by blast
qed

text \<open>
  Claim C9. A tick whose moved head is on the board and is the cell of the tail ends the
  game: the self-collision test runs over the whole previous snake, tail included.
\<close>
theorem tick_into_tail:
  assumes "gameStatus g = PLAYING" and "snake g = first # rest"
    and "h = moveHead (directionRef g) first"
    and "0 \<le> pos_x h \<and> pos_x h < 20 \<and> 0 \<le> pos_y h \<and> pos_y h < 20"
    and "h = last (snake g)"
  shows "tick g rs = Some (g\<lparr>gameStatus := GAME_OVER, gameStatusRef := GAME_OVER\<rparr>, rs)"
proof -
  from assms(2) have "last (snake g) \<in> set (snake g)" by simp
  with assms(5) have "isPositionOccupied (snake g) h" by (simp add: isPositionOccupied_iff)
  then show ?thesis by (simp add: tick_Cons[OF assms(1,2,3)])
qed

theorem tick_into_tail_witness:
  "gameStatus coiled = PLAYING \<and>
   moveHead (directionRef coiled) \<lparr>pos_x = 5, pos_y = 5\<rparr> = last (snake coiled) \<and>
   tick coiled sevens = Some (coiled\<lparr>gameStatus := GAME_OVER, gameStatusRef := GAME_OVER\<rparr>, sevens)"
proof -
  let ?h = "\<lparr>pos_x = 5, pos_y = 6\<rparr>"
  have 1: "gameStatus coiled = PLAYING" by (simp add: coiled_def startedGame_def)
  have 2: "snake coiled = \<lparr>pos_x = 5, pos_y = 5\<rparr> #
      [\<lparr>pos_x = 6, pos_y = 5\<rparr>, \<lparr>pos_x = 6, pos_y = 6\<rparr>, \<lparr>pos_x = 5, pos_y = 6\<rparr>]"
    by (simp add: coiled_def)
  have 3: "?h = moveHead (directionRef coiled) \<lparr>pos_x = 5, pos_y = 5\<rparr>"
    by (simp add: coiled_def)
  have 4: "0 \<le> pos_x ?h \<and> pos_x ?h < 20 \<and> 0 \<le> pos_y ?h \<and> pos_y ?h < 20" by simp
  have 5: "?h = last (snake coiled)" by (simp add: 2)
  from tick_into_tail[OF 1 2 3 4 5, of sevens] 1 3 5 show ?thesis by simp
qed

text \<open>
  Claim C10. Two direction changes between two ticks can turn the snake around: after a
  tick that applied \<^verbatim>\<open>UP\<close>, \<^verbatim>\<open>LEFT\<close> is accepted, then \<^verbatim>\<open>DOWN\<close> is accepted
  because the guard compares with the pending direction \<^verbatim>\<open>LEFT\<close>, and the next tick
  applies \<^verbatim>\<open>DOWN\<close>, the reverse of \<^verbatim>\<open>UP\<close>: the head moves into the cell behind it
  and the game ends.
\<close>
theorem reversal_between_ticks:
  "reachable startedGame \<and> directionRef startedGame = UP \<and>
   tick startedGame sevens = Some (movedGame, sevens) \<and>
   snake movedGame = moveHead UP \<lparr>pos_x = 10, pos_y = 10\<rparr> # butlast (snake startedGame) \<and>
   keyDown ''ArrowLeft'' movedGame sevens =
     Some (movedGame\<lparr>direction := LEFT, directionRef := LEFT\<rparr>, sevens) \<and>
   keyDown ''ArrowDown'' (movedGame\<lparr>direction := LEFT, directionRef := LEFT\<rparr>) sevens =
     Some (movedGame\<lparr>direction := DOWN, directionRef := DOWN\<rparr>, sevens) \<and>
   setDirection LEFT movedGame sevens =
     Some (movedGame\<lparr>direction := LEFT, directionRef := LEFT\<rparr>, sevens) \<and>
   setDirection DOWN (movedGame\<lparr>direction := LEFT, directionRef := LEFT\<rparr>) sevens =
     Some (movedGame\<lparr>direction := DOWN, directionRef := DOWN\<rparr>, sevens) \<and>
   DOWN = opposite UP \<and>
   moveHead DOWN (hd (snake movedGame)) = hd (tl (snake movedGame)) \<and>
   tick (movedGame\<lparr>direction := DOWN, directionRef := DOWN\<rparr>) sevens =
     Some (movedGame\<lparr>direction := DOWN, directionRef := DOWN,
                     gameStatus := GAME_OVER, gameStatusRef := GAME_OVER\<rparr>, sevens)"
proof -
  have m: "gameStatusRef movedGame = PLAYING" "directionRef movedGame = UP"
    by (simp_all add: movedGame_def startedGame_def)
  have l: "setDirection LEFT movedGame sevens =
     Some (movedGame\<lparr>direction := LEFT, directionRef := LEFT\<rparr>, sevens)"
    by (simp add: setDirection_eq m)
  have d: "setDirection DOWN (movedGame\<lparr>direction := LEFT, directionRef := LEFT\<rparr>) sevens =
     Some (movedGame\<lparr>direction := DOWN, directionRef := DOWN\<rparr>, sevens)"
    by (simp add: setDirection_eq m)
  have kl: "keyDirection ''ArrowLeft'' = Some LEFT" and kd: "keyDirection ''ArrowDown'' = Some DOWN"
    by (simp_all add: keyDirection_def)
  have u: "directionRef startedGame = UP" by (simp add: startedGame_def)
  have s: "snake movedGame = moveHead UP \<lparr>pos_x = 10, pos_y = 10\<rparr> # butlast (snake startedGame)"
    by (simp add: movedGame_def startedGame_def INITIAL_SNAKE_def)
  have n: "moveHead DOWN (hd (snake movedGame)) = hd (tl (snake movedGame))"
    by (simp add: movedGame_def)
  have o: "DOWN = opposite UP" by simp
  note kl' = trans[OF keyDown_direction[OF kl] l] and kd' = trans[OF keyDown_direction[OF kd] d]
  show ?thesis
    by (intro conjI)
      (rule reachable_startedGame u tick_startedGame s kl' kd' l d o n tick_movedGame_down)+
qed

end
